theory Spec2Isabelle
  imports Main
begin

section \<open>cslog: data model\<close>

text \<open>
  The embedding follows \<^verbatim>\<open>csLog.h\<close> and \<^verbatim>\<open>csLog.cpp\<close>. Strings are byte lists
  (\<^verbatim>\<open>std::string\<close>), \<^verbatim>\<open>size_t\<close> counters that only ever hold sizes of files and
  of queued strings are natural numbers, the enum \<^verbatim>\<open>LogLevel\<close> is a datatype with its
  numeric value given by \<open>levelNum\<close>.
\<close>

datatype LogLevel =
  LOG_LEVEL_OFF | LOG_LEVEL_ERROR | LOG_LEVEL_WARN | LOG_LEVEL_INFO | LOG_LEVEL_DEBUG

fun levelNum :: "LogLevel \<Rightarrow> int" where
  "levelNum LOG_LEVEL_OFF = -1"
| "levelNum LOG_LEVEL_ERROR = 0"
| "levelNum LOG_LEVEL_WARN = 1"
| "levelNum LOG_LEVEL_INFO = 2"
| "levelNum LOG_LEVEL_DEBUG = 3"

fun levelName :: "LogLevel \<Rightarrow> string" where
  "levelName LOG_LEVEL_ERROR = ''ERROR''"
| "levelName LOG_LEVEL_WARN = ''WARN''"
| "levelName LOG_LEVEL_INFO = ''INFO''"
| "levelName LOG_LEVEL_DEBUG = ''DEBUG''"
| "levelName LOG_LEVEL_OFF = ''OFF''"

record LogConfig =
  enable :: bool
  toConsole :: bool
  toFile :: bool
  level :: LogLevel
  baseName :: string
  logPath :: string
  maxFileCount :: int
  maxFileSize :: nat
  maxLogsTotalSize :: nat
  maxQueueSize :: nat
  queuePolicy :: string

definition defaultConfig :: LogConfig where
  "defaultConfig =
     \<lparr> enable = True, toConsole = True, toFile = True, level = LOG_LEVEL_DEBUG,
       baseName = ''server'', logPath = ''./logs/'', maxFileCount = 5,
       maxFileSize = 5 * 1024 * 1024, maxLogsTotalSize = 50 * 1024 * 1024,
       maxQueueSize = 20000, queuePolicy = ''block'' \<rparr>"

record LogTask =
  lvl :: LogLevel
  text' :: string

text \<open>
  What a call can do besides returning: a producer under the block policy waits on the
  condition variable (\<open>Suspended\<close>: on the state at hand the call does not return),
  and an exception can leave the call (\<open>Raised\<close>).
\<close>

datatype error = ConfigLoadFailure

datatype 'a outcome = Returned 'a | Suspended | Raised error

fun bindO :: "'a outcome \<Rightarrow> ('a \<Rightarrow> 'b outcome) \<Rightarrow> 'b outcome" where
  "bindO (Returned x) f = f x"
| "bindO Suspended f = Suspended"
| "bindO (Raised e) f = Raised e"

subsection \<open>The configuration file\<close>

text \<open>
  yaml-cpp is not part of the repository; its results are inputs of the model.
  \<^verbatim>\<open>YAML::LoadFile\<close> throws when the file is missing or malformed (\<open>LoadFails\<close>);
  a key of the \<^verbatim>\<open>csLog\<close> node is absent, present with a value that
  \<^verbatim>\<open>as<T>()\<close> converts, or present with a value on which \<^verbatim>\<open>as<T>()\<close> throws.
\<close>

datatype 'a yfield = Absent | Unconvertible | Present 'a

record yaml_csLog =
  y_enable :: "bool yfield"
  y_toConsole :: "bool yfield"
  y_toFile :: "bool yfield"
  y_logPath :: "string yfield"
  y_fileName :: "string yfield"
  y_maxFileCount :: "int yfield"
  y_maxFileSize :: "nat yfield"
  y_maxLogsTotalSize :: "nat yfield"
  y_maxQueueSize :: "nat yfield"
  y_queuePolicy :: "string yfield"
  y_level :: "string yfield"

datatype yaml_root = LoadFails | NoCsLog | CsLog yaml_csLog

text \<open>The lambda \<^verbatim>\<open>get\<close>: \<^verbatim>\<open>if (node[key]) dst = node[key].as<T>();\<close>\<close>

fun get :: "'a yfield \<Rightarrow> 'a \<Rightarrow> 'a outcome" where
  "get Absent dst = Returned dst"
| "get (Present v) dst = Returned v"
| "get Unconvertible dst = Raised ConfigLoadFailure"

definition toupper :: "char \<Rightarrow> char" where
  "toupper c =
     (if 97 \<le> (of_char c :: nat) \<and> (of_char c :: nat) \<le> 122
      then char_of ((of_char c :: nat) - 32) else c)"

text \<open>
  The switch on \<^verbatim>\<open>s[0]\<close> after upper-casing; for the empty string \<^verbatim>\<open>s[0]\<close> is
  the terminating NUL, which takes the default branch.
\<close>

definition parseLevel :: "string \<Rightarrow> LogLevel" where
  "parseLevel s =
     (case map toupper s of
        [] \<Rightarrow> LOG_LEVEL_INFO
      | c # _ \<Rightarrow>
          if c = CHR ''E'' then LOG_LEVEL_ERROR
          else if c = CHR ''W'' then LOG_LEVEL_WARN
          else if c = CHR ''I'' then LOG_LEVEL_INFO
          else if c = CHR ''D'' then LOG_LEVEL_DEBUG
          else LOG_LEVEL_INFO)"

definition loadConfigFromFile :: "yaml_root \<Rightarrow> LogConfig \<Rightarrow> LogConfig outcome" where
  "loadConfigFromFile root c =
     (case root of
        LoadFails \<Rightarrow> Raised ConfigLoadFailure
      | NoCsLog \<Rightarrow> Returned c
      | CsLog node \<Rightarrow>
          bindO (get (y_enable node) (enable c)) (\<lambda>v1.
          bindO (get (y_toConsole node) (toConsole c)) (\<lambda>v2.
          bindO (get (y_toFile node) (toFile c)) (\<lambda>v3.
          bindO (get (y_logPath node) (logPath c)) (\<lambda>v4.
          bindO (get (y_fileName node) (baseName c)) (\<lambda>v5.
          bindO (get (y_maxFileCount node) (maxFileCount c)) (\<lambda>v6.
          bindO (get (y_maxFileSize node) (maxFileSize c)) (\<lambda>v7.
          bindO (get (y_maxLogsTotalSize node) (maxLogsTotalSize c)) (\<lambda>v8.
          bindO (get (y_maxQueueSize node) (maxQueueSize c)) (\<lambda>v9.
          bindO (get (y_queuePolicy node) (queuePolicy c)) (\<lambda>v10.
          bindO (case y_level node of
                   Absent \<Rightarrow> Returned (level c)
                 | Unconvertible \<Rightarrow> Raised ConfigLoadFailure
                 | Present s \<Rightarrow> Returned (parseLevel s)) (\<lambda>v11.
          Returned
            \<lparr> enable = v1, toConsole = v2, toFile = v3, level = v11, baseName = v5,
              logPath = v4, maxFileCount = v6, maxFileSize = v7, maxLogsTotalSize = v8,
              maxQueueSize = v9, queuePolicy = v10 \<rparr>))))))))))))"

section \<open>The logger\<close>

text \<open>
  One entry of the directory \<^verbatim>\<open>logPath\<close>: its file name, whether
  \<^verbatim>\<open>is_regular_file()\<close> holds, its size in bytes and its last write time.
\<close>

record entry =
  fname :: string
  regular :: bool
  fsize :: nat
  mtime :: nat

text \<open>
  The state of the process as far as the logger reads or writes it: the global
  \<^verbatim>\<open>g_cfg\<close>, the configuration file, whether the singleton has been constructed, the
  members of \<^verbatim>\<open>Logger\<close>, the local \<^verbatim>\<open>lastFlush\<close> of the worker (steady-clock
  nanoseconds), and the outside world: the directory \<open>logPath\<close> (\<open>None\<close> when it
  does not exist), the bytes handed to the stream and not yet flushed to the file, and what
  was written to \<^verbatim>\<open>std::cout\<close> and \<^verbatim>\<open>std::cerr\<close>. The member \<open>file'\<close> is the
  directory entry the \<^verbatim>\<open>std::ofstream\<close> is open on, \<open>None\<close> when it is closed.
\<close>

record Logger =
  g_cfg :: LogConfig
  yaml :: yaml_root
  started :: bool
  queue :: "LogTask list"
  exitFlag :: bool
  file' :: "string option"
  currentSize :: nat
  currentFileName :: string
  bytesSinceFlush :: nat
  lastFlush :: int
  unflushed :: nat
  dir :: "entry list option"
  cout :: "string list"
  cerr :: "string list"

text \<open>
  \<^verbatim>\<open>Logger::instance()\<close>: the first call runs the constructor, which loads the
  configuration; an exception of the constructor leaves \<^verbatim>\<open>instance()\<close>.
\<close>

definition instance' :: "Logger \<Rightarrow> Logger outcome" where
  "instance' st =
     (if started st then Returned st
      else bindO (loadConfigFromFile (yaml st) (g_cfg st))
             (\<lambda>c. Returned (st\<lparr>g_cfg := c, started := True\<rparr>)))"

text \<open>The warning of the warn policy, as the bytes of the source's string literal.\<close>

definition queueFullWarning :: string where
  "queueFullWarning =
     [CHR 0x1B, CHR 0x5B, CHR 0x33, CHR 0x33, CHR 0x6D, CHR 0x5B, CHR 0x57, CHR 0x41,
      CHR 0x52, CHR 0x4E, CHR 0x5D, CHR 0x20, CHR 0xE6, CHR 0x97, CHR 0xA5, CHR 0xE5,
      CHR 0xBF, CHR 0x97, CHR 0xE9, CHR 0x98, CHR 0x9F, CHR 0xE5, CHR 0x88, CHR 0x97,
      CHR 0xE5, CHR 0xB7, CHR 0xB2, CHR 0xE6, CHR 0xBB, CHR 0xA1, CHR 0xEF, CHR 0xBC,
      CHR 0x8C, CHR 0xE6, CHR 0xAD, CHR 0xA4, CHR 0xE6, CHR 0x97, CHR 0xA5, CHR 0xE5,
      CHR 0xBF, CHR 0x97, CHR 0xE8, CHR 0xA2, CHR 0xAB, CHR 0xE4, CHR 0xB8, CHR 0xA2,
      CHR 0xE5, CHR 0xBC, CHR 0x83, CHR 0xEF, CHR 0xBC, CHR 0x81, CHR 0x1B, CHR 0x5B,
      CHR 0x30, CHR 0x6D, CHR 0x0A]"

text \<open>
  \<^verbatim>\<open>Logger::push\<close>, one atomic step under the mutex. Under the block policy a full
  queue makes the caller wait until the consumer has popped a task: on this state the call
  does not return.
\<close>

definition push :: "LogLevel \<Rightarrow> string \<Rightarrow> Logger \<Rightarrow> Logger outcome" where
  "push l msg st =
     (if \<not> enable (g_cfg st) \<or> levelNum l > levelNum (level (g_cfg st)) then Returned st
      else if length (queue st) \<ge> maxQueueSize (g_cfg st) then
        (if queuePolicy (g_cfg st) = ''drop'' then Returned st
         else if queuePolicy (g_cfg st) = ''warn''
           then Returned (st\<lparr>cerr := cerr st @ [queueFullWarning]\<rparr>)
         else if queuePolicy (g_cfg st) = ''block'' then Suspended
         else Returned (st\<lparr>queue := queue st @ [\<lparr>lvl = l, text' = msg\<rparr>]\<rparr>))
      else Returned (st\<lparr>queue := queue st @ [\<lparr>lvl = l, text' = msg\<rparr>]\<rparr>))"


section \<open>Rendering a line\<close>

abbreviation dq :: char where "dq \<equiv> CHR 0x22"
abbreviation bsl :: char where "bsl \<equiv> CHR 0x5C"

definition digitChar :: "nat \<Rightarrow> char" where
  "digitChar d = char_of (48 + d)"

text \<open>Decimal digits of a natural number, most significant first.\<close>

function dec :: "nat \<Rightarrow> string" where
  "dec n = (if n < 10 then [digitChar n] else dec (n div 10) @ [digitChar (n mod 10)])"
  by pat_completeness auto
termination
  by (relation "measure id") auto

declare dec.simps [simp del]

text \<open>\<^verbatim>\<open>operator<<(int)\<close> in the classic locale, and \<^verbatim>\<open>%d\<close>.\<close>

definition showInt :: "int \<Rightarrow> string" where
  "showInt i = (if i < 0 then CHR ''-'' # dec (nat (- i)) else dec (nat i))"

text \<open>\<^verbatim>\<open>%0wd\<close>: zero padding to width \<open>w\<close>, the sign counted in the width.\<close>

definition fmt0d :: "nat \<Rightarrow> int \<Rightarrow> string" where
  "fmt0d w i =
     (if i < 0
      then CHR ''-'' # replicate (w - 1 - length (dec (nat (- i)))) (CHR ''0'') @ dec (nat (- i))
      else replicate (w - length (dec (nat i))) (CHR ''0'') @ dec (nat i))"

definition hexDigit :: "nat \<Rightarrow> char" where
  "hexDigit d = (if d < 10 then char_of (48 + d) else char_of (87 + d))"

text \<open>\<^verbatim>\<open>%04x\<close> on a value below \<open>65536\<close>.\<close>

definition fmt04x :: "nat \<Rightarrow> string" where
  "fmt04x n =
     [hexDigit (n div 4096 mod 16), hexDigit (n div 256 mod 16),
      hexDigit (n div 16 mod 16), hexDigit (n mod 16)]"

text \<open>The body of the loop of \<^verbatim>\<open>jsonEscape\<close>: what one byte appends to \<^verbatim>\<open>out\<close>.\<close>

definition escapeChar :: "char \<Rightarrow> string" where
  "escapeChar c =
     (if c = dq then [bsl, dq]
      else if c = bsl then [bsl, bsl]
      else if c = CHR 0x08 then [bsl, CHR ''b'']
      else if c = CHR 0x0C then [bsl, CHR ''f'']
      else if c = CHR 0x0A then [bsl, CHR ''n'']
      else if c = CHR 0x0D then [bsl, CHR ''r'']
      else if c = CHR 0x09 then [bsl, CHR ''t'']
      else if (of_char c :: nat) < 0x20 then bsl # CHR ''u'' # fmt04x ((of_char c :: nat) mod 256)
      else [c])"

fun jsonEscape :: "string \<Rightarrow> string" where
  "jsonEscape [] = []"
| "jsonEscape (c # s) = escapeChar c @ jsonEscape s"

text \<open>
  The fields of \<^verbatim>\<open>std::tm\<close> that are printed, as \<^verbatim>\<open>localtime_r\<close> filled them.
\<close>

record tm =
  tm_year :: int
  tm_mon :: int
  tm_mday :: int
  tm_hour :: int
  tm_min :: int
  tm_sec :: int

text \<open>\<^verbatim>\<open>strftime(tsBuf, 32, "%Y-%m-%d %H:%M:%S", &tm)\<close>\<close>

definition tsBuf :: "tm \<Rightarrow> string" where
  "tsBuf t =
     showInt (tm_year t + 1900) @ ''-'' @ fmt0d 2 (tm_mon t + 1) @ ''-'' @ fmt0d 2 (tm_mday t)
     @ '' '' @ fmt0d 2 (tm_hour t) @ '':'' @ fmt0d 2 (tm_min t) @ '':'' @ fmt0d 2 (tm_sec t)"

text \<open>
  A \<^verbatim>\<open>LogLine\<close> at the moment it is destroyed: its members, \<open>ss\<close> holding what was
  streamed into it. The macros without \<^verbatim>\<open>_F\<close> leave \<open>fileName\<close> and \<open>funcName\<close>
  null.
\<close>

record LogLine =
  level' :: LogLevel
  fileName :: "string option"
  lineNum :: int
  funcName :: "string option"
  ss :: string

text \<open>The loop that pops trailing newlines and carriage returns off \<^verbatim>\<open>msg\<close>.\<close>

definition stripTrailing :: "string \<Rightarrow> string" where
  "stripTrailing msg = rev (dropWhile (\<lambda>c. c = CHR 0x0A \<or> c = CHR 0x0D) (rev msg))"

definition renderLine :: "tm \<Rightarrow> LogLine \<Rightarrow> string" where
  "renderLine now ll =
     ''{'' @ dq # ''time'' @ dq # '':'' @ dq # tsBuf now @ [dq]
     @ '','' @ dq # ''level'' @ dq # '':'' @ dq # levelName (level' ll) @ [dq]
     @ (case fileName ll of
          None \<Rightarrow> []
        | Some f \<Rightarrow>
            '','' @ dq # ''file'' @ dq # '':'' @ dq # jsonEscape f @ [dq]
            @ '','' @ dq # ''line'' @ dq # '':'' @ showInt (lineNum ll)
            @ '','' @ dq # ''func'' @ dq # '':'' @ dq
              # jsonEscape (case funcName ll of None \<Rightarrow> [] | Some g \<Rightarrow> g) @ [dq])
     @ '','' @ dq # ''msg'' @ dq # '':'' @ dq # jsonEscape (stripTrailing (ss ll)) @ [dq]
     @ ''}'' @ [CHR 0x0A]"

text \<open>
  \<^verbatim>\<open>LogLine::~LogLine()\<close>, the producer call (the spec's \<open>emit\<close>); \<open>now\<close> is the
  local time it reads. An exception that leaves \<^verbatim>\<open>Logger::instance()\<close> leaves the
  body of the destructor: \<open>Raised\<close> says that the call does not return normally. What
  the C++ runtime then does with an exception that escapes a destructor (it ends the
  process, destructors being \<^verbatim>\<open>noexcept\<close> unless declared otherwise) is not modelled.
\<close>

definition LogLine_dtor :: "tm \<Rightarrow> LogLine \<Rightarrow> Logger \<Rightarrow> Logger outcome" where
  "LogLine_dtor now ll st =
     (if \<not> enable (g_cfg st) \<or> levelNum (level' ll) > levelNum (level (g_cfg st))
      then Returned st
      else bindO (instance' st) (push (level' ll) (renderLine now ll)))"

text \<open>The process before the first log line: nothing constructed, nothing queued.\<close>

definition initial :: "yaml_root \<Rightarrow> entry list option \<Rightarrow> Logger" where
  "initial y d =
     \<lparr> g_cfg = defaultConfig, yaml = y, started = False, queue = [], exitFlag = False,
       file' = None, currentSize = 0, currentFileName = [], bytesSinceFlush = 0,
       lastFlush = 0, unflushed = 0, dir = d, cout = [], cerr = [] \<rparr>"


section \<open>Files\<close>

subsection \<open>Total-size enforcement\<close>

text \<open>
  The test of the enumeration loop of \<^verbatim>\<open>cleanupOldLogFiles\<close>: a regular file whose
  name starts with \<open>baseName_\<close>, ends in \<open>.log\<close> and is longer than both together.
\<close>

definition isLogFile :: "LogConfig \<Rightarrow> entry \<Rightarrow> bool" where
  "isLogFile c e =
     (let name = fname e; prefix = baseName c @ ''_''; suffix = ''.log''
      in regular e
         \<and> take (length prefix) name = prefix
         \<and> length name > length prefix + length suffix
         \<and> drop (length name - length suffix) name = suffix)"

text \<open>\<^verbatim>\<open>totalSize += f.file_size()\<close> in \<^verbatim>\<open>std::uintmax_t\<close>: addition wraps at \<open>2^64\<close>.\<close>

definition sumSizes :: "entry list \<Rightarrow> nat" where
  "sumSizes files = foldl (\<lambda>t f. (t + fsize f) mod 2 ^ 64) 0 files"

text \<open>\<^verbatim>\<open>fs::remove(p)\<close> on the directory.\<close>

definition removeFile :: "string \<Rightarrow> entry list \<Rightarrow> entry list" where
  "removeFile name es = filter (\<lambda>e. fname e \<noteq> name) es"

text \<open>
  The deletion loop over the sorted snapshot. \<open>tot\<close> is \<^verbatim>\<open>totalSize\<close>, \<open>es\<close> the
  directory. \<^verbatim>\<open>f.file_size()\<close> reads the size of a file that the pass has not touched
  since the enumeration, which is the size enumerated.
\<close>

fun removeOldest :: "nat \<Rightarrow> entry list \<Rightarrow> nat \<Rightarrow> entry list \<Rightarrow> entry list" where
  "removeOldest mx [] tot es = es"
| "removeOldest mx (f # fs) tot es =
     (if tot \<le> mx then es
      else removeOldest mx fs
             (if tot \<ge> fsize f then tot - fsize f else 0)
             (removeFile (fname f) es))"

text \<open>
  \<^verbatim>\<open>cleanupOldLogFiles\<close> on the directory. The calls into \<^verbatim>\<open>std::filesystem\<close>
  are taken to succeed: they report a failure by throwing, which ends the pass before it
  completes. \<^verbatim>\<open>std::sort\<close> leaves the order of files with equal write times open; the
  model takes the stable one.
\<close>

definition cleanupDir :: "LogConfig \<Rightarrow> entry list option \<Rightarrow> entry list option" where
  "cleanupDir c d =
     (if maxLogsTotalSize c = 0 then d
      else case d of
        None \<Rightarrow> None
      | Some es \<Rightarrow>
          let files = filter (isLogFile c) es in
          if files = [] then d
          else let totalSize = sumSizes files in
            if totalSize \<le> maxLogsTotalSize c then d
            else Some (removeOldest (maxLogsTotalSize c) (sort_key mtime files) totalSize es))"

definition cleanupOldLogFiles :: "Logger \<Rightarrow> Logger" where
  "cleanupOldLogFiles st = st\<lparr>dir := cleanupDir (g_cfg st) (dir st)\<rparr>"

subsection \<open>Opening and rotating\<close>

text \<open>
  What one run of \<^verbatim>\<open>createNewLogFile\<close> reads from outside: the local time for the
  file name, the local time read by the \<^verbatim>\<open>LogLine\<close> of its \<^verbatim>\<open>LOG_INFO\<close>, whether
  \<^verbatim>\<open>file.open\<close> succeeds, and the write time a created file gets.
\<close>

record creation =
  tmName :: tm
  tmLine :: tm
  openOk :: bool
  created :: nat

text \<open>
  \<^verbatim>\<open>snprintf(buf, 64, "_%04d-%02d-%02d_%02d-%02d-%02d.log", ...)\<close>, cut to the
  \<open>63\<close> characters the buffer holds.
\<close>

definition logSuffix :: "tm \<Rightarrow> string" where
  "logSuffix t =
     take 63
       (''_'' @ fmt0d 4 (tm_year t + 1900) @ ''-'' @ fmt0d 2 (tm_mon t + 1) @ ''-''
        @ fmt0d 2 (tm_mday t) @ ''_'' @ fmt0d 2 (tm_hour t) @ ''-'' @ fmt0d 2 (tm_min t)
        @ ''-'' @ fmt0d 2 (tm_sec t) @ ''.log'')"

text \<open>The bytes of the literal streamed in front of the file name.\<close>

definition logFilePrefix :: string where
  "logFilePrefix =
     [CHR 0xE6, CHR 0x97, CHR 0xA5, CHR 0xE5, CHR 0xBF, CHR 0x97, CHR 0xE6, CHR 0x96,
      CHR 0x87, CHR 0xE4, CHR 0xBB, CHR 0xB6, CHR 0xEF, CHR 0xBC, CHR 0x9A]"

definition sizeOn :: "string \<Rightarrow> entry list \<Rightarrow> nat option" where
  "sizeOn name es = map_option fsize (find (\<lambda>e. fname e = name) es)"

text \<open>
  \<^verbatim>\<open>createNewLogFile\<close>. Both callers have the stream closed. \<open>logPath\<close> is taken to
  end in a separator and \<open>baseName\<close> to hold none, as the defaults do, so that the file
  \<open>logPath + baseName + buf\<close> is the entry \<open>baseName + buf\<close> of the directory
  \<open>logPath\<close>. Opening for append creates an absent file and fails in an absent
  directory; an existing entry that is opened is a file, and \<^verbatim>\<open>tellp\<close> after
  \<^verbatim>\<open>seekp(0, end)\<close> is its size.
\<close>

definition createNewLogFile :: "creation \<Rightarrow> Logger \<Rightarrow> Logger outcome" where
  "createNewLogFile cr st =
     (let name = baseName (g_cfg st) @ logSuffix (tmName cr);
          st1 = st\<lparr>currentFileName := logPath (g_cfg st) @ name\<rparr>
      in bindO
           (LogLine_dtor (tmLine cr)
              \<lparr> level' = LOG_LEVEL_INFO, fileName = None, lineNum = 0, funcName = None,
                ss = logFilePrefix @ currentFileName st1 \<rparr> st1)
           (\<lambda>st2.
              case dir st2 of
                None \<Rightarrow> Returned (st2\<lparr>file' := None, currentSize := 0\<rparr>)
              | Some es \<Rightarrow>
                  if \<not> openOk cr then Returned (st2\<lparr>file' := None, currentSize := 0\<rparr>)
                  else
                    (case sizeOn name es of
                       None \<Rightarrow>
                         Returned
                           (st2\<lparr> file' := Some name,
                                 dir := Some (es @ [\<lparr>fname = name, regular = True, fsize = 0,
                                                     mtime = created cr\<rparr>]),
                                 currentSize := 0, bytesSinceFlush := 0 \<rparr>)
                     | Some sz \<Rightarrow>
                         Returned
                           (st2\<lparr> file' := Some name, currentSize := sz,
                                 bytesSinceFlush := 0 \<rparr>))))"

text \<open>\<^verbatim>\<open>create_directories\<close> is taken to succeed.\<close>

definition openFileOnce :: "creation \<Rightarrow> Logger \<Rightarrow> Logger outcome" where
  "openFileOnce cr st =
     (if file' st \<noteq> None then Returned st
      else createNewLogFile cr
             (cleanupOldLogFiles
                (st\<lparr>dir := (case dir st of None \<Rightarrow> Some [] | Some es \<Rightarrow> Some es)\<rparr>)))"

text \<open>\<^verbatim>\<open>file.flush(); file.close();\<close>\<close>

definition closeFile :: "Logger \<Rightarrow> Logger" where
  "closeFile st = (if file' st \<noteq> None then st\<lparr>unflushed := 0, file' := None\<rparr> else st)"

definition rotate :: "creation \<Rightarrow> Logger \<Rightarrow> Logger outcome" where
  "rotate cr st =
     (if currentSize st < maxFileSize (g_cfg st) then Returned st
      else createNewLogFile cr (cleanupOldLogFiles (closeFile st)))"

section \<open>The worker thread\<close>

fun levelColor :: "LogLevel \<Rightarrow> string" where
  "levelColor LOG_LEVEL_ERROR = CHR 0x1B # ''[31m''"
| "levelColor LOG_LEVEL_WARN = CHR 0x1B # ''[33m''"
| "levelColor LOG_LEVEL_INFO = CHR 0x1B # ''[36m''"
| "levelColor LOG_LEVEL_DEBUG = CHR 0x1B # ''[37m''"
| "levelColor LOG_LEVEL_OFF = []"

definition COLOR_RESET :: string where
  "COLOR_RESET = CHR 0x1B # ''[0m''"

definition FLUSH_BYTES_THRESHOLD :: nat where
  "FLUSH_BYTES_THRESHOLD = 32 * 1024"

definition FLUSH_INTERVAL_MS :: int where
  "FLUSH_INTERVAL_MS = 1000"

text \<open>
  What one pass of the loop reads from outside: the inputs of the two places where a file
  can be created, the write time the file gets from \<^verbatim>\<open>file.write\<close>, and the three
  readings of the steady clock (nanoseconds), in program order.
\<close>

record iteration =
  onOpen :: creation
  onRotate :: creation
  written :: nat
  tErr :: int
  tChk :: int
  tSet :: int

text \<open>\<^verbatim>\<open>file.write\<close>: the bytes go to the stream of the open file.\<close>

definition writeFile :: "string \<Rightarrow> nat \<Rightarrow> nat \<Rightarrow> Logger \<Rightarrow> Logger" where
  "writeFile name n t st =
     st\<lparr> dir := map_option
                   (map (\<lambda>e. if fname e = name then e\<lparr>fsize := fsize e + n, mtime := t\<rparr> else e))
                   (dir st),
         unflushed := unflushed st + n \<rparr>"

text \<open>
  The write and the two counters:
  \<^verbatim>\<open>file.write(...); currentSize += task.text.size(); bytesSinceFlush += task.text.size();\<close>
\<close>

definition appendRecord :: "string \<Rightarrow> LogTask \<Rightarrow> nat \<Rightarrow> Logger \<Rightarrow> Logger" where
  "appendRecord name task t st =
     (writeFile name (length (text' task)) t st)
       \<lparr> currentSize := currentSize st + length (text' task),
         bytesSinceFlush := bytesSinceFlush st + length (text' task) \<rparr>"

text \<open>The block \<^verbatim>\<open>if (task.lvl <= LOG_LEVEL_ERROR) { ... }\<close>.\<close>

definition flushOnError :: "iteration \<Rightarrow> LogTask \<Rightarrow> Logger \<Rightarrow> Logger" where
  "flushOnError it task st =
     (if levelNum (lvl task) \<le> levelNum LOG_LEVEL_ERROR
      then st\<lparr>unflushed := 0, bytesSinceFlush := 0, lastFlush := tErr it\<rparr>
      else st)"

text \<open>The block \<^verbatim>\<open>if (config().toFile) { ... }\<close> for a dequeued task.\<close>

definition handleFile :: "iteration \<Rightarrow> LogTask \<Rightarrow> Logger \<Rightarrow> Logger outcome" where
  "handleFile it task st =
     bindO (openFileOnce (onOpen it) st) (\<lambda>st1.
       case file' st1 of
         None \<Rightarrow> Returned st1
       | Some name \<Rightarrow>
           bindO (rotate (onRotate it) (appendRecord name task (written it) st1))
             (\<lambda>st3. Returned (flushOnError it task st3)))"

text \<open>The block \<^verbatim>\<open>if (hasTask) { ... }\<close>.\<close>

definition handleTask :: "iteration \<Rightarrow> LogTask \<Rightarrow> Logger \<Rightarrow> Logger outcome" where
  "handleTask it task st =
     (let st1 = (if toConsole (g_cfg st)
                 then st\<lparr>cout := cout st @ [levelColor (lvl task) @ text' task @ COLOR_RESET]\<rparr>
                 else st)
      in if toFile (g_cfg st1) then handleFile it task st1 else Returned st1)"

text \<open>
  The block \<^verbatim>\<open>if (config().toFile && file.is_open()) { ... }\<close> that closes every pass.
  The steady clock does not run backwards, so the truncation of
  \<^verbatim>\<open>duration_cast<milliseconds>\<close> is that of \<open>div\<close>.
\<close>

definition flushPolicy :: "iteration \<Rightarrow> Logger \<Rightarrow> Logger" where
  "flushPolicy it st =
     (if toFile (g_cfg st) \<and> file' st \<noteq> None then
        (let needFlush =
           (if bytesSinceFlush st \<ge> FLUSH_BYTES_THRESHOLD then True
            else (tChk it - lastFlush st) div 1000000 \<ge> FLUSH_INTERVAL_MS)
         in if needFlush
            then st\<lparr>unflushed := 0, bytesSinceFlush := 0, lastFlush := tSet it\<rparr>
            else st)
      else st)"

text \<open>
  One pass of the \<^verbatim>\<open>while (true)\<close> loop of \<^verbatim>\<open>workerThread\<close>, from the moment
  \<^verbatim>\<open>wait_for\<close> has returned. The result says whether the loop goes on; on
  \<^verbatim>\<open>break\<close> the flush after the loop is part of the pass. The worker holds the
  mutex only while it takes the task, so producers can push while the task is handled;
  the parts of a pass are functions of any state, also of one that such pushes have changed.
\<close>

definition workerIteration :: "iteration \<Rightarrow> Logger \<Rightarrow> (bool \<times> Logger) outcome" where
  "workerIteration it st =
     (if exitFlag st \<and> queue st = [] then
        Returned (False, if toFile (g_cfg st) \<and> file' st \<noteq> None then st\<lparr>unflushed := 0\<rparr> else st)
      else case queue st of
        [] \<Rightarrow> Returned (True, flushPolicy it st)
      | task # q \<Rightarrow>
          bindO (handleTask it task (st\<lparr>queue := q\<rparr>))
            (\<lambda>st1. Returned (True, flushPolicy it st1)))"


section \<open>Reading a line back\<close>















section \<open>Notions used in the statements\<close>

text \<open>
  The producer call of the macros without call site: \<^verbatim>\<open>LogLine(LogLevel lvl)\<close> and what was streamed in.
\<close>

definition plainLine :: "LogLevel \<Rightarrow> string \<Rightarrow> LogLine" where
  "plainLine l m = \<lparr> level' = l, fileName = None, lineNum = 0, funcName = None, ss = m \<rparr>"

text \<open>
  The result of a call that returned.
\<close>

definition returned :: "'a outcome \<Rightarrow> 'a option" where
  "returned r = (case r of Returned x \<Rightarrow> Some x | _ \<Rightarrow> None)"

text \<open>
  The worker calls \<open>push\<close> itself when it creates a file. \<open>roomFor k\<close> says that
  \<open>k\<close> such calls cannot wait; \<open>sameEngine\<close> names what they leave alone;
  \<open>infoTask\<close> is the record they queue.
\<close>

definition roomFor :: "nat \<Rightarrow> Logger \<Rightarrow> bool" where
  "roomFor k st \<longleftrightarrow>
     queuePolicy (g_cfg st) \<noteq> ''block'' \<or> length (queue st) + k \<le> maxQueueSize (g_cfg st)"

definition sameEngine :: "Logger \<Rightarrow> Logger \<Rightarrow> bool" where
  "sameEngine st st' \<longleftrightarrow> g_cfg st' = g_cfg st \<and> started st' = started st \<and> lastFlush st' = lastFlush st"

definition infoTask :: "creation \<Rightarrow> LogConfig \<Rightarrow> LogTask" where
  "infoTask cr c =
     \<lparr> lvl = LOG_LEVEL_INFO,
       text' = renderLine (tmLine cr)
                 \<lparr> level' = LOG_LEVEL_INFO, fileName = None, lineNum = 0, funcName = None,
                   ss = logFilePrefix @ logPath c @ baseName c @ logSuffix (tmName cr) \<rparr> \<rparr>"

text \<open>
  The aggregate size of the files a cleanup pass counts, the deletion of a list of files,
  and the files in the order of the pass.
\<close>

definition aggregate :: "LogConfig \<Rightarrow> entry list \<Rightarrow> nat" where
  "aggregate c es = sum_list (map fsize (filter (isLogFile c) es))"

definition deleteAll :: "entry list \<Rightarrow> entry list \<Rightarrow> entry list" where
  "deleteAll fs es = foldl (\<lambda>d f. removeFile (fname f) d) es fs"

definition oldestFirst :: "LogConfig \<Rightarrow> entry list \<Rightarrow> entry list" where
  "oldestFirst c es = sort_key mtime (filter (isLogFile c) es)"





section \<open>States and inputs used in the examples\<close>

definition noon :: tm where
  "noon = \<lparr> tm_year = 125, tm_mon = 11, tm_mday = 10, tm_hour = 12, tm_min = 0, tm_sec = 0 \<rparr>"

definition cr0 :: creation where
  "cr0 = \<lparr> tmName = noon, tmLine = noon, openOk = True, created = 0 \<rparr>"

definition it0 :: iteration where
  "it0 = \<lparr> onOpen = cr0, onRotate = cr0, written = 0, tErr = 5000000000, tChk = 5000000000,
           tSet = 5000000000 \<rparr>"

definition fullState :: "string \<Rightarrow> Logger" where
  "fullState pol =
     (initial NoCsLog None)
       \<lparr> g_cfg := defaultConfig\<lparr>maxQueueSize := 1, queuePolicy := pol\<rparr>, started := True,
         queue := [\<lparr>lvl = LOG_LEVEL_INFO, text' = ''x''\<rparr>] \<rparr>"

definition idle :: Logger where
  "idle = (initial NoCsLog None)\<lparr>started := True\<rparr>"

definition openState :: Logger where
  "openState =
     (initial NoCsLog (Some [\<lparr>fname = ''server_a.log'', regular = True, fsize = 0, mtime = 0\<rparr>]))
       \<lparr> started := True, file' := Some ''server_a.log'' \<rparr>"

definition threeLogs :: "entry list" where
  "threeLogs =
     [\<lparr>fname = ''server_c.log'', regular = True, fsize = 40, mtime = 3\<rparr>,
      \<lparr>fname = ''server_a.log'', regular = True, fsize = 30, mtime = 1\<rparr>,
      \<lparr>fname = ''notes.txt'', regular = True, fsize = 500, mtime = 0\<rparr>,
      \<lparr>fname = ''server_b.log'', regular = True, fsize = 50, mtime = 2\<rparr>]"





section \<open>The queue\<close>

lemma queueFullWarning_one_line:
  "count_list queueFullWarning (CHR 0x0A) = 1 \<and> last queueFullWarning = CHR 0x0A"
  by (simp add: queueFullWarning_def)

text \<open>
  C5: when the queue is at capacity, \<open>push\<close> under the drop policy returns at once and
  leaves the whole state, the queue with it, as it was; under the warn policy it returns
  at once, leaves the queue as it was, and for a record that reached the queue (one that
  passes the filter of \<open>push\<close>) writes exactly one line to the error stream.
\<close>

theorem push_full_drop_warn:
  assumes "length (queue st) \<ge> maxQueueSize (g_cfg st)"
  shows "(queuePolicy (g_cfg st) = ''drop'' \<longrightarrow> push l m st = Returned st)
       \<and> (queuePolicy (g_cfg st) = ''warn'' \<longrightarrow>
            push l m st =
              Returned (if enable (g_cfg st) \<and> levelNum l \<le> levelNum (level (g_cfg st))
                        then st\<lparr>cerr := cerr st @ [queueFullWarning]\<rparr> else st)
            \<and> count_list queueFullWarning (CHR 0x0A) = 1
            \<and> last queueFullWarning = CHR 0x0A)"
  using assms by (simp add: push_def queueFullWarning_one_line)

theorem push_full_drop_warn_witness:
  "maxQueueSize (g_cfg (fullState ''drop'')) \<le> length (queue (fullState ''drop''))
   \<and> push LOG_LEVEL_WARN ''m'' (fullState ''drop'') = Returned (fullState ''drop'')
   \<and> push LOG_LEVEL_WARN ''m'' (fullState ''warn'')
       = Returned ((fullState ''warn'')\<lparr>cerr := [queueFullWarning]\<rparr>)"
  using push_full_drop_warn [of "fullState ''drop''" LOG_LEVEL_WARN "''m''"]
        push_full_drop_warn [of "fullState ''warn''" LOG_LEVEL_WARN "''m''"]
  by (simp add: fullState_def initial_def defaultConfig_def)

text \<open>
  C9: with any \<open>queuePolicy\<close> other than drop, warn and block, a \<open>push\<close> that finds
  the queue at capacity appends the record without waiting, and the queue is then longer
  than \<open>maxQueueSize\<close>; with one of the three policies a \<open>push\<close> that returns keeps
  a queue within \<open>maxQueueSize\<close> within it.
\<close>

theorem push_unknown_policy_overflows:
  "(queuePolicy (g_cfg st) \<notin> {''drop'', ''warn'', ''block''}
      \<and> enable (g_cfg st) \<and> levelNum l \<le> levelNum (level (g_cfg st))
      \<and> length (queue st) \<ge> maxQueueSize (g_cfg st)
     \<longrightarrow> push l m st = Returned (st\<lparr>queue := queue st @ [\<lparr>lvl = l, text' = m\<rparr>]\<rparr>)
         \<and> length (queue st @ [\<lparr>lvl = l, text' = m\<rparr>]) > maxQueueSize (g_cfg st))
   \<and> (queuePolicy (g_cfg st) \<in> {''drop'', ''warn'', ''block''}
      \<and> length (queue st) \<le> maxQueueSize (g_cfg st) \<and> push l m st = Returned st'
     \<longrightarrow> length (queue st') \<le> maxQueueSize (g_cfg st'))"
  by (auto simp: push_def split: if_splits)

theorem push_unknown_policy_overflows_witness:
  "push LOG_LEVEL_WARN ''m'' (fullState ''Drop'')
     = Returned ((fullState ''Drop'')
         \<lparr>queue := [\<lparr>lvl = LOG_LEVEL_INFO, text' = ''x''\<rparr>, \<lparr>lvl = LOG_LEVEL_WARN, text' = ''m''\<rparr>]\<rparr>)
   \<and> maxQueueSize (g_cfg (fullState ''Drop'')) = 1
   \<and> length (queue (fullState ''drop'')) \<le> maxQueueSize (g_cfg (fullState ''drop''))
   \<and> push LOG_LEVEL_WARN ''m'' (fullState ''drop'') = Returned (fullState ''drop'')"
  using push_unknown_policy_overflows [of "fullState ''Drop''" LOG_LEVEL_WARN "''m''" "fullState ''Drop''"]
        push_unknown_policy_overflows [of "fullState ''drop''" LOG_LEVEL_WARN "''m''" "fullState ''drop''"]
  by (simp add: fullState_def initial_def defaultConfig_def push_def)

section \<open>The producer call\<close>

text \<open>
  C6: when the engine is disabled or the numeric level of the severity is not at most the
  configured level, the producer call returns the state it was given: no record, the queue
  and every file untouched. A severity whose numeric level is at most the configured one
  passes: on a started, enabled engine with room in the queue the call appends the record.
\<close>

theorem emit_threshold:
  "(\<not> enable (g_cfg st) \<or> \<not> levelNum (level' ll) \<le> levelNum (level (g_cfg st))
      \<longrightarrow> LogLine_dtor now ll st = Returned st)
   \<and> (enable (g_cfg st) \<and> levelNum (level' ll) \<le> levelNum (level (g_cfg st))
        \<and> started st \<and> length (queue st) < maxQueueSize (g_cfg st)
      \<longrightarrow> LogLine_dtor now ll st =
            Returned (st\<lparr>queue := queue st @ [\<lparr>lvl = level' ll, text' = renderLine now ll\<rparr>]\<rparr>))"
  by (auto simp: LogLine_dtor_def instance'_def push_def)

theorem emit_threshold_witness:
  "LogLine_dtor noon (plainLine LOG_LEVEL_DEBUG ''m'')
       ((initial NoCsLog None)\<lparr>g_cfg := defaultConfig\<lparr>level := LOG_LEVEL_INFO\<rparr>, started := True\<rparr>)
     = Returned ((initial NoCsLog None)\<lparr>g_cfg := defaultConfig\<lparr>level := LOG_LEVEL_INFO\<rparr>, started := True\<rparr>)
   \<and> LogLine_dtor noon (plainLine LOG_LEVEL_INFO ''m'')
       ((initial NoCsLog None)\<lparr>g_cfg := defaultConfig\<lparr>level := LOG_LEVEL_INFO\<rparr>, started := True\<rparr>)
     = Returned ((initial NoCsLog None)
         \<lparr>g_cfg := defaultConfig\<lparr>level := LOG_LEVEL_INFO\<rparr>, started := True,
          queue := [\<lparr>lvl = LOG_LEVEL_INFO, text' = renderLine noon (plainLine LOG_LEVEL_INFO ''m'')\<rparr>]\<rparr>)"
  using emit_threshold [of "(initial NoCsLog None)\<lparr>g_cfg := defaultConfig\<lparr>level := LOG_LEVEL_INFO\<rparr>, started := True\<rparr>"
                           "plainLine LOG_LEVEL_DEBUG ''m''" noon]
        emit_threshold [of "(initial NoCsLog None)\<lparr>g_cfg := defaultConfig\<lparr>level := LOG_LEVEL_INFO\<rparr>, started := True\<rparr>"
                           "plainLine LOG_LEVEL_INFO ''m''" noon]
  by (simp add: initial_def defaultConfig_def plainLine_def)




section \<open>The worker\<close>

lemma push_returns:
  assumes "roomFor (Suc k) st"
  shows "\<exists>st'. push l m st = Returned st' \<and> roomFor k st' \<and> sameEngine st st'
           \<and> st' = st\<lparr>queue := queue st', cerr := cerr st'\<rparr>"
  using assms by (auto simp: push_def roomFor_def sameEngine_def)

lemma LogLine_dtor_returns:
  assumes "started st" "roomFor (Suc k) st"
  shows "\<exists>st'. LogLine_dtor now ll st = Returned st' \<and> roomFor k st' \<and> sameEngine st st'
           \<and> st' = st\<lparr>queue := queue st', cerr := cerr st'\<rparr>"
proof (cases "\<not> enable (g_cfg st) \<or> levelNum (level' ll) > levelNum (level (g_cfg st))")
  case True
  then have "LogLine_dtor now ll st = Returned st"
    by (simp add: LogLine_dtor_def)
  moreover have "roomFor k st"
    using assms(2) by (auto simp: roomFor_def)
  ultimately show ?thesis
    by (simp add: sameEngine_def)
next
  case False
  then have "LogLine_dtor now ll st = push (level' ll) (renderLine now ll) st"
    using assms(1) by (simp add: LogLine_dtor_def instance'_def)
  then show ?thesis
    using push_returns [OF assms(2)] by simp
qed

lemma createNewLogFile_returns:
  assumes "started st" "roomFor (Suc k) st"
  shows "\<exists>st'. createNewLogFile cr st = Returned st' \<and> roomFor k st' \<and> sameEngine st st'
           \<and> unflushed st' = unflushed st
           \<and> (file' st' \<noteq> None \<longrightarrow> bytesSinceFlush st' = 0)"
proof -
  let ?name = "baseName (g_cfg st) @ logSuffix (tmName cr)"
  let ?st1 = "st\<lparr>currentFileName := logPath (g_cfg st) @ ?name\<rparr>"
  let ?ll = "\<lparr> level' = LOG_LEVEL_INFO, fileName = None, lineNum = 0, funcName = None,
               ss = logFilePrefix @ currentFileName ?st1 \<rparr>"
  have "started ?st1" "roomFor (Suc k) ?st1"
    using assms by (simp_all add: roomFor_def)
  from LogLine_dtor_returns [OF this, of "tmLine cr" ?ll]
  obtain st2 where d: "LogLine_dtor (tmLine cr) ?ll ?st1 = Returned st2"
    and r: "roomFor k st2" and e: "sameEngine ?st1 st2"
    and f: "st2 = ?st1\<lparr>queue := queue st2, cerr := cerr st2\<rparr>"
    by blast
  have u: "unflushed st2 = unflushed st"
    by (subst f) simp
  show ?thesis
    unfolding createNewLogFile_def Let_def d bindO.simps
    using r e u
    by (auto simp: roomFor_def sameEngine_def split: option.splits)
qed

lemma cleanup_frame:
  "g_cfg (cleanupOldLogFiles st) = g_cfg st" "started (cleanupOldLogFiles st) = started st"
  "queue (cleanupOldLogFiles st) = queue st" "unflushed (cleanupOldLogFiles st) = unflushed st"
  "lastFlush (cleanupOldLogFiles st) = lastFlush st" "file' (cleanupOldLogFiles st) = file' st"
  "bytesSinceFlush (cleanupOldLogFiles st) = bytesSinceFlush st"
  "currentSize (cleanupOldLogFiles st) = currentSize st"
  by (simp_all add: cleanupOldLogFiles_def)

lemma cleanupDir_Some: "\<exists>es'. cleanupDir c (Some es) = Some es'"
  by (simp add: cleanupDir_def Let_def)

lemma rotate_returns:
  assumes "started st" "roomFor (Suc k) st"
  shows "\<exists>st'. rotate cr st = Returned st' \<and> roomFor k st' \<and> sameEngine st st'
           \<and> (unflushed st' = unflushed st \<or> unflushed st' = 0)"
proof (cases "currentSize st < maxFileSize (g_cfg st)")
  case True
  then show ?thesis
    using assms(2) by (auto simp: rotate_def roomFor_def sameEngine_def)
next
  case False
  let ?s = "cleanupOldLogFiles (closeFile st)"
  have "started ?s" "roomFor (Suc k) ?s"
    using assms by (simp_all add: cleanup_frame closeFile_def roomFor_def)
  from createNewLogFile_returns [OF this, of cr]
  obtain st' where "createNewLogFile cr ?s = Returned st'" "roomFor k st'" "sameEngine ?s st'"
    "unflushed st' = unflushed ?s"
    by blast
  then show ?thesis
    using False by (auto simp: rotate_def sameEngine_def cleanup_frame closeFile_def)
qed

lemma openFileOnce_returns:
  assumes "started st" "roomFor (Suc k) st"
  shows "\<exists>st'. openFileOnce cr st = Returned st' \<and> roomFor k st' \<and> sameEngine st st'"
proof (cases "file' st \<noteq> None")
  case True
  then show ?thesis
    using assms(2) by (auto simp: openFileOnce_def roomFor_def sameEngine_def)
next
  case False
  let ?s = "cleanupOldLogFiles (st\<lparr>dir := (case dir st of None \<Rightarrow> Some [] | Some es \<Rightarrow> Some es)\<rparr>)"
  have "started ?s" "roomFor (Suc k) ?s"
    using assms by (simp_all add: cleanup_frame roomFor_def)
  from createNewLogFile_returns [OF this, of cr]
  obtain st' where "createNewLogFile cr ?s = Returned st'" "roomFor k st'" "sameEngine ?s st'"
    by blast
  then show ?thesis
    using False by (auto simp: openFileOnce_def sameEngine_def cleanup_frame)
qed

lemma handleTask_returns:
  assumes "started st" and "roomFor 2 st"
  shows "\<exists>st'. handleTask it task st = Returned st'"
proof -
  let ?s0 = "if toConsole (g_cfg st)
             then st\<lparr>cout := cout st @ [levelColor (lvl task) @ text' task @ COLOR_RESET]\<rparr> else st"
  have s0: "started ?s0" "roomFor (Suc 1) ?s0"
    using assms by (simp_all add: roomFor_def)
  show ?thesis
  proof (cases "toFile (g_cfg st)")
    case False
    then show ?thesis
      by (simp add: handleTask_def)
  next
    case True
    then have h: "handleTask it task st = handleFile it task ?s0"
      by (simp add: handleTask_def)
    from openFileOnce_returns [OF s0]
    obtain st1 where o: "openFileOnce (onOpen it) ?s0 = Returned st1"
      and r1: "roomFor 1 st1" and e1: "sameEngine ?s0 st1"
      by blast
    show ?thesis
    proof (cases "file' st1")
      case None
      then show ?thesis
        by (simp add: h handleFile_def o)
    next
      case (Some name)
      let ?st2 = "appendRecord name task (written it) st1"
      have "started ?st2" "roomFor (Suc 0) ?st2"
        using r1 e1 assms(1) by (simp_all add: roomFor_def sameEngine_def writeFile_def appendRecord_def)
      from rotate_returns [OF this]
      obtain st3 where "rotate (onRotate it) ?st2 = Returned st3"
        by blast
      then show ?thesis
        by (simp add: h handleFile_def o Some)
    qed
  qed
qed

lemma flushPolicy_spec:
  "flushPolicy it s =
     (if toFile (g_cfg s) \<and> file' s \<noteq> None
         \<and> (bytesSinceFlush s \<ge> 32768 \<or> tChk it - lastFlush s \<ge> 1000000000)
      then s\<lparr>unflushed := 0, bytesSinceFlush := 0, lastFlush := tSet it\<rparr> else s)"
proof -
  have "(tChk it - lastFlush s) div 1000000 \<ge> 1000 \<longleftrightarrow> tChk it - lastFlush s \<ge> 1000000000"
    by linarith
  then show ?thesis
    by (auto simp: flushPolicy_def FLUSH_BYTES_THRESHOLD_def FLUSH_INTERVAL_MS_def)
qed

text \<open>
  C7, amended: every pass of the loop that does not end it closes with the flush policy,
  whatever record was handled and whether or not one was. With file routing enabled and a
  file open at that point, the file is flushed and both the byte count and the flush time
  are reset if the unflushed bytes are at least 32 KiB or else if at least one second has
  passed since the last flush; in every other case the pass flushes and resets nothing.
  A pass without a task returns; a pass with a task returns when the worker's own pushes
  cannot wait.
\<close>

theorem iteration_flush_policy:
  "(\<forall>st'. workerIteration it st = Returned (True, st') \<longrightarrow>
      (\<exists>s. (queue st = [] \<and> s = st
             \<or> (\<exists>task q. queue st = task # q \<and> handleTask it task (st\<lparr>queue := q\<rparr>) = Returned s))
          \<and> (if toFile (g_cfg s) \<and> file' s \<noteq> None
                 \<and> (bytesSinceFlush s \<ge> 32 * 1024 \<or> tChk it - lastFlush s \<ge> 1000000000)
              then st' = s\<lparr>unflushed := 0, bytesSinceFlush := 0, lastFlush := tSet it\<rparr>
              else st' = s)))
   \<and> (queue st = [] \<or> started st \<and> roomFor 2 (st\<lparr>queue := tl (queue st)\<rparr>)
        \<longrightarrow> (\<exists>r. workerIteration it st = Returned r))"
proof (intro conjI allI impI)
  fix st'
  assume a: "workerIteration it st = Returned (True, st')"
  show "\<exists>s. (queue st = [] \<and> s = st
              \<or> (\<exists>task q. queue st = task # q \<and> handleTask it task (st\<lparr>queue := q\<rparr>) = Returned s))
           \<and> (if toFile (g_cfg s) \<and> file' s \<noteq> None
                  \<and> (bytesSinceFlush s \<ge> 32 * 1024 \<or> tChk it - lastFlush s \<ge> 1000000000)
               then st' = s\<lparr>unflushed := 0, bytesSinceFlush := 0, lastFlush := tSet it\<rparr>
               else st' = s)"
  proof (cases "queue st")
    case Nil
    with a have "st' = flushPolicy it st"
      by (simp add: workerIteration_def split: if_splits)
    with Nil show ?thesis
      by (auto simp: flushPolicy_spec)
  next
    case (Cons task q)
    with a obtain s where "handleTask it task (st\<lparr>queue := q\<rparr>) = Returned s" "st' = flushPolicy it s"
      by (cases "handleTask it task (st\<lparr>queue := q\<rparr>)") (auto simp: workerIteration_def)
    with Cons show ?thesis
      by (auto simp: flushPolicy_spec)
  qed
next
  assume b: "queue st = [] \<or> started st \<and> roomFor 2 (st\<lparr>queue := tl (queue st)\<rparr>)"
  show "\<exists>r. workerIteration it st = Returned r"
  proof (cases "queue st")
    case Nil
    then show ?thesis
      by (auto simp: workerIteration_def)
  next
    case (Cons task q)
    with b have "started (st\<lparr>queue := q\<rparr>)" "roomFor 2 (st\<lparr>queue := q\<rparr>)"
      by simp_all
    from handleTask_returns [OF this, of it task]
    obtain s where "handleTask it task (st\<lparr>queue := q\<rparr>) = Returned s"
      by blast
    with Cons show ?thesis
      by (auto simp: workerIteration_def)
  qed
qed

text \<open>
  C7, as stated, fails: a pass of the idle worker with no file open, more than a second
  after the last flush, resets nothing.
\<close>

theorem iteration_without_file_no_reset:
  "workerIteration it0 idle = Returned (True, idle)
   \<and> tChk it0 - lastFlush idle \<ge> 1000000000 \<and> lastFlush idle \<noteq> tSet it0"
  by (simp add: workerIteration_def flushPolicy_def idle_def initial_def it0_def)

theorem iteration_flush_policy_witness:
  "workerIteration it0 openState
     = Returned (True, openState\<lparr>unflushed := 0, bytesSinceFlush := 0, lastFlush := 5000000000\<rparr>)
   \<and> tChk it0 - lastFlush openState \<ge> 1000000000"
proof -
  have w: "workerIteration it0 openState
             = Returned (True, openState\<lparr>unflushed := 0, bytesSinceFlush := 0, lastFlush := 5000000000\<rparr>)"
    by (simp add: workerIteration_def flushPolicy_def openState_def initial_def it0_def
          defaultConfig_def FLUSH_BYTES_THRESHOLD_def FLUSH_INTERVAL_MS_def)
  from iteration_flush_policy [of it0 openState] w show ?thesis
    by (simp add: openState_def initial_def it0_def)
qed




lemma createNewLogFile_enqueues:
  assumes "started st" and "enable (g_cfg st)"
    and "levelNum LOG_LEVEL_INFO \<le> levelNum (level (g_cfg st))"
    and "length (queue st) < maxQueueSize (g_cfg st)
         \<or> queuePolicy (g_cfg st) \<notin> {''drop'', ''warn'', ''block''}"
  shows "\<exists>st'. createNewLogFile cr st = Returned st'
           \<and> queue st' = queue st @ [infoTask cr (g_cfg st)]
           \<and> currentFileName st' = logPath (g_cfg st) @ baseName (g_cfg st) @ logSuffix (tmName cr)"
proof -
  let ?name = "baseName (g_cfg st) @ logSuffix (tmName cr)"
  let ?st1 = "st\<lparr>currentFileName := logPath (g_cfg st) @ ?name\<rparr>"
  let ?ll = "\<lparr> level' = LOG_LEVEL_INFO, fileName = None, lineNum = 0, funcName = None,
               ss = logFilePrefix @ currentFileName ?st1 \<rparr>"
  have d: "LogLine_dtor (tmLine cr) ?ll ?st1
             = Returned (?st1\<lparr>queue := queue st @ [infoTask cr (g_cfg st)]\<rparr>)"
    using assms by (auto simp: LogLine_dtor_def instance'_def push_def infoTask_def)
  show ?thesis
    unfolding createNewLogFile_def Let_def d bindO.simps
    by (auto split: option.splits)
qed

text \<open>
  C10, amended: on a started engine on which Info passes the filter and whose queue accepts
  a record (it is below capacity, or the policy is none of the three), the first open and
  every rotation append exactly one record to the queue, of class Info, whose message is
  the literal of the source followed by the path of the new file.
\<close>

theorem creation_enqueues_info:
  assumes "started st" and "enable (g_cfg st)"
    and "levelNum LOG_LEVEL_INFO \<le> levelNum (level (g_cfg st))"
    and "length (queue st) < maxQueueSize (g_cfg st)
         \<or> queuePolicy (g_cfg st) \<notin> {''drop'', ''warn'', ''block''}"
  shows "(file' st = None \<longrightarrow>
           (\<exists>st'. openFileOnce cr st = Returned st'
              \<and> queue st' = queue st @ [infoTask cr (g_cfg st)]
              \<and> currentFileName st' = logPath (g_cfg st) @ baseName (g_cfg st) @ logSuffix (tmName cr)))
       \<and> (currentSize st \<ge> maxFileSize (g_cfg st) \<longrightarrow>
           (\<exists>st'. rotate cr st = Returned st'
              \<and> queue st' = queue st @ [infoTask cr (g_cfg st)]
              \<and> currentFileName st' = logPath (g_cfg st) @ baseName (g_cfg st) @ logSuffix (tmName cr)))"
proof -
  let ?a = "cleanupOldLogFiles (st\<lparr>dir := (case dir st of None \<Rightarrow> Some [] | Some es \<Rightarrow> Some es)\<rparr>)"
  let ?b = "cleanupOldLogFiles (closeFile st)"
  have a: "started ?a" "enable (g_cfg ?a)" "levelNum LOG_LEVEL_INFO \<le> levelNum (level (g_cfg ?a))"
    "length (queue ?a) < maxQueueSize (g_cfg ?a) \<or> queuePolicy (g_cfg ?a) \<notin> {''drop'', ''warn'', ''block''}"
    using assms by (simp_all add: cleanup_frame del: levelNum.simps)
  have b: "started ?b" "enable (g_cfg ?b)" "levelNum LOG_LEVEL_INFO \<le> levelNum (level (g_cfg ?b))"
    "length (queue ?b) < maxQueueSize (g_cfg ?b) \<or> queuePolicy (g_cfg ?b) \<notin> {''drop'', ''warn'', ''block''}"
    using assms by (simp_all add: cleanup_frame closeFile_def del: levelNum.simps)
  have "g_cfg ?a = g_cfg st" "queue ?a = queue st" "g_cfg ?b = g_cfg st" "queue ?b = queue st"
    by (simp_all add: cleanup_frame closeFile_def)
  then show ?thesis
    using createNewLogFile_enqueues [OF a, of cr] createNewLogFile_enqueues [OF b, of cr]
    by (simp add: openFileOnce_def rotate_def)
qed

theorem creation_enqueues_info_witness:
  "map_option queue (returned (openFileOnce cr0 idle)) = Some [infoTask cr0 defaultConfig]
   \<and> map_option queue (returned (rotate cr0 (idle\<lparr>g_cfg := defaultConfig\<lparr>maxFileSize := 0\<rparr>\<rparr>)))
       = Some [infoTask cr0 (defaultConfig\<lparr>maxFileSize := 0\<rparr>)]"
proof -
  have a: "started idle" "enable (g_cfg idle)"
    "levelNum LOG_LEVEL_INFO \<le> levelNum (level (g_cfg idle))"
    "length (queue idle) < maxQueueSize (g_cfg idle)
       \<or> queuePolicy (g_cfg idle) \<notin> {''drop'', ''warn'', ''block''}"
    by (simp_all add: idle_def initial_def defaultConfig_def)
  let ?r = "idle\<lparr>g_cfg := defaultConfig\<lparr>maxFileSize := 0\<rparr>\<rparr>"
  have b: "started ?r" "enable (g_cfg ?r)"
    "levelNum LOG_LEVEL_INFO \<le> levelNum (level (g_cfg ?r))"
    "length (queue ?r) < maxQueueSize (g_cfg ?r)
       \<or> queuePolicy (g_cfg ?r) \<notin> {''drop'', ''warn'', ''block''}"
    by (simp_all add: idle_def initial_def defaultConfig_def)
  from creation_enqueues_info [OF a, of cr0] creation_enqueues_info [OF b, of cr0]
  show ?thesis
    by (auto simp: returned_def idle_def initial_def)
qed

text \<open>
  C10, as stated, fails: with the queue at capacity under the drop policy a file is
  created, Info passes the filter, and no record is added.
\<close>

theorem creation_full_queue_no_record:
  "enable (g_cfg (fullState ''drop''))
   \<and> levelNum LOG_LEVEL_INFO \<le> levelNum (level (g_cfg (fullState ''drop'')))
   \<and> map_option file' (returned (openFileOnce cr0 (fullState ''drop'')))
       = Some (Some (''server'' @ logSuffix noon))
   \<and> map_option queue (returned (openFileOnce cr0 (fullState ''drop'')))
       = Some (queue (fullState ''drop''))"
  by (simp add: returned_def openFileOnce_def createNewLogFile_def cleanupOldLogFiles_def
        cleanupDir_def LogLine_dtor_def instance'_def push_def fullState_def initial_def
        defaultConfig_def cr0_def sizeOn_def Let_def)

section \<open>Total size\<close>

lemma foldl_mod_exact:
  "a + sum_list (map fsize fs) < 2 ^ 64 \<Longrightarrow>
     foldl (\<lambda>t f. (t + fsize f) mod 2 ^ 64) a fs = a + sum_list (map fsize fs)"
proof (induction fs arbitrary: a)
  case Nil
  then show ?case by simp
next
  case (Cons f fs)
  have "a + fsize f < 2 ^ 64"
    using Cons.prems by simp
  then have "(a + fsize f) mod 2 ^ 64 = a + fsize f"
    by simp
  moreover have "(a + fsize f) + sum_list (map fsize fs) < 2 ^ 64"
    using Cons.prems by simp
  ultimately show ?case
    using Cons.IH [of "a + fsize f"] by simp
qed

lemma sumSizes_exact:
  "aggregate c es < 2 ^ 64 \<Longrightarrow> sumSizes (filter (isLogFile c) es) = aggregate c es"
  using foldl_mod_exact [of 0 "filter (isLogFile c) es"]
  by (simp add: sumSizes_def aggregate_def)

lemma same_name_same_entry:
  "distinct (map fname es) \<Longrightarrow> e \<in> set es \<Longrightarrow> f \<in> set es \<Longrightarrow> fname e = fname f \<Longrightarrow> e = f"
  by (auto simp: distinct_map dest: inj_onD)

lemma removeFile_set:
  "distinct (map fname es) \<Longrightarrow> f \<in> set es \<Longrightarrow> set (removeFile (fname f) es) = set es - {f}"
  by (auto simp: removeFile_def dest: same_name_same_entry)

lemma removeFile_distinct:
  "distinct (map fname es) \<Longrightarrow> distinct (map fname (removeFile n es))"
  by (simp add: removeFile_def distinct_map_filter)

lemma removeFile_aggregate:
  "distinct (map fname es) \<Longrightarrow> f \<in> set es \<Longrightarrow> isLogFile c f \<Longrightarrow>
     aggregate c (removeFile (fname f) es) + fsize f = aggregate c es"
proof (induction es)
  case Nil
  then show ?case by simp
next
  case (Cons e es)
  show ?case
  proof (cases "e = f")
    case True
    then have "fname f \<notin> fname ` set es"
      using Cons.prems(1) by simp
    then have "\<forall>x\<in>set es. fname x \<noteq> fname f"
      by (metis imageI)
    then have "removeFile (fname f) es = es"
      by (simp add: removeFile_def filter_id_conv)
    then show ?thesis
      using True Cons.prems(3) by (simp add: aggregate_def removeFile_def)
  next
    case False
    then have "f \<in> set es" "fname e \<noteq> fname f"
      using Cons.prems by auto
    then show ?thesis
      using Cons.IH Cons.prems by (simp add: aggregate_def removeFile_def)
  qed
qed

lemma aggregate_none: "{e \<in> set es. isLogFile c e} = {} \<Longrightarrow> aggregate c es = 0"
  by (auto simp: aggregate_def filter_empty_conv)

lemma removeOldest_prefix:
  assumes "distinct (map fname es)" and "distinct fs"
    and "set fs = {e \<in> set es. isLogFile c e}" and "tot = aggregate c es"
  shows "\<exists>k\<le>length fs.
           removeOldest mx fs tot es = deleteAll (take k fs) es
           \<and> aggregate c (deleteAll (take k fs) es) \<le> mx
           \<and> (\<forall>j<k. mx < aggregate c (deleteAll (take j fs) es))"
  using assms
proof (induction fs arbitrary: tot es)
  case Nil
  then show ?case
    by (simp add: deleteAll_def aggregate_none)
next
  case (Cons f fs)
  show ?case
  proof (cases "tot \<le> mx")
    case True
    then have "removeOldest mx (f # fs) tot es = deleteAll (take 0 (f # fs)) es
               \<and> aggregate c (deleteAll (take 0 (f # fs)) es) \<le> mx"
      using Cons.prems(4) by (simp add: deleteAll_def)
    then show ?thesis
      by (intro exI [of _ 0]) simp
  next
    case False
    let ?es = "removeFile (fname f) es"
    have f: "f \<in> set es" "isLogFile c f"
      using Cons.prems(3) by auto
    have agg: "aggregate c ?es + fsize f = aggregate c es"
      using removeFile_aggregate [OF Cons.prems(1) f] .
    then have tot: "(if tot \<ge> fsize f then tot - fsize f else 0) = aggregate c ?es"
      using Cons.prems(4) by simp
    have "set fs = {e \<in> set ?es. isLogFile c e}"
      using Cons.prems(2,3) removeFile_set [OF Cons.prems(1) f(1)] by auto
    from Cons.IH [OF removeFile_distinct [OF Cons.prems(1)] _ this, of "aggregate c ?es"]
    obtain k where k: "k \<le> length fs"
      "removeOldest mx fs (aggregate c ?es) ?es = deleteAll (take k fs) ?es"
      "aggregate c (deleteAll (take k fs) ?es) \<le> mx"
      "\<forall>j<k. mx < aggregate c (deleteAll (take j fs) ?es)"
      using Cons.prems(2) by auto
    have d: "\<And>j. deleteAll (take (Suc j) (f # fs)) es = deleteAll (take j fs) ?es"
      by (simp add: deleteAll_def)
    have "\<forall>j<Suc k. mx < aggregate c (deleteAll (take j (f # fs)) es)"
    proof (intro allI impI)
      fix j assume "j < Suc k"
      show "mx < aggregate c (deleteAll (take j (f # fs)) es)"
      proof (cases j)
        case 0
        then show ?thesis
          using False Cons.prems(4) by (simp add: deleteAll_def)
      next
        case (Suc i)
        then show ?thesis
          using k(4) \<open>j < Suc k\<close> d by simp
      qed
    qed
    moreover have "removeOldest mx (f # fs) tot es = deleteAll (take (Suc k) (f # fs)) es"
      using False tot k(2) d by simp
    moreover have "aggregate c (deleteAll (take (Suc k) (f # fs)) es) \<le> mx"
      using k(3) d by simp
    ultimately show ?thesis
      using k(1) by (intro exI [of _ "Suc k"]) simp
  qed
qed

text \<open>
  C1, amended: for a positive \<open>maxLogsTotalSize\<close> and a directory (file names distinct)
  whose matching files together stay below \<open>2^64\<close> bytes, a completed cleanup pass
  leaves the aggregate size of the matching files at most \<open>maxLogsTotalSize\<close>. It
  deletes the first \<open>k\<close> matching files in the order of their write times, where
  \<open>k\<close> is the least number that brings the aggregate within the cap (all of them at
  the latest); when the aggregate is within the cap already, it deletes nothing. A
  directory that does not exist stays so.
\<close>

theorem cleanup_establishes_cap:
  assumes "0 < maxLogsTotalSize c" and "distinct (map fname es)" and "aggregate c es < 2 ^ 64"
  shows "cleanupDir c None = None
       \<and> (\<exists>k\<le>length (oldestFirst c es).
           cleanupDir c (Some es) = Some (deleteAll (take k (oldestFirst c es)) es)
           \<and> aggregate c (deleteAll (take k (oldestFirst c es)) es) \<le> maxLogsTotalSize c
           \<and> (\<forall>j<k. maxLogsTotalSize c < aggregate c (deleteAll (take j (oldestFirst c es)) es))
           \<and> (aggregate c es \<le> maxLogsTotalSize c \<longrightarrow> cleanupDir c (Some es) = Some es))"
proof -
  have none: "cleanupDir c None = None"
    by (simp add: cleanupDir_def)
  let ?files = "filter (isLogFile c) es"
  have tot: "sumSizes ?files = aggregate c es"
    using sumSizes_exact [OF assms(3)] .
  show ?thesis
  proof (cases "?files = [] \<or> aggregate c es \<le> maxLogsTotalSize c")
    case True
    then have "aggregate c es \<le> maxLogsTotalSize c"
      by (auto simp: aggregate_def)
    moreover have "cleanupDir c (Some es) = Some es"
      using True assms(1) tot by (auto simp: cleanupDir_def Let_def)
    ultimately show ?thesis
      using none by (intro conjI exI [of _ 0]) (simp_all add: deleteAll_def)
  next
    case False
    then have c: "cleanupDir c (Some es)
                    = Some (removeOldest (maxLogsTotalSize c) (oldestFirst c es) (aggregate c es) es)"
      using assms(1) tot by (simp add: cleanupDir_def Let_def oldestFirst_def)
    have "distinct es"
      using assms(2) by (simp add: distinct_map)
    then have "distinct (oldestFirst c es)" "set (oldestFirst c es) = {e \<in> set es. isLogFile c e}"
      by (auto simp: oldestFirst_def)
    from removeOldest_prefix [OF assms(2) this refl, of "maxLogsTotalSize c"] c False none
    show ?thesis
      by auto
  qed
qed

lemma threeLogs_match:
  "filter (isLogFile (defaultConfig\<lparr>maxLogsTotalSize := n\<rparr>)) threeLogs
     = [\<lparr>fname = ''server_c.log'', regular = True, fsize = 40, mtime = 3\<rparr>,
        \<lparr>fname = ''server_a.log'', regular = True, fsize = 30, mtime = 1\<rparr>,
        \<lparr>fname = ''server_b.log'', regular = True, fsize = 50, mtime = 2\<rparr>]"
  by (simp add: threeLogs_def isLogFile_def defaultConfig_def Let_def)

theorem cleanup_establishes_cap_witness:
  "cleanupDir (defaultConfig\<lparr>maxLogsTotalSize := 60\<rparr>) (Some threeLogs)
     = Some [\<lparr>fname = ''server_c.log'', regular = True, fsize = 40, mtime = 3\<rparr>,
             \<lparr>fname = ''notes.txt'', regular = True, fsize = 500, mtime = 0\<rparr>]
   \<and> aggregate (defaultConfig\<lparr>maxLogsTotalSize := 60\<rparr>) threeLogs = 120"
proof -
  let ?c = "defaultConfig\<lparr>maxLogsTotalSize := 60\<rparr>"
  have a: "aggregate ?c threeLogs = 120"
    by (simp add: aggregate_def threeLogs_match)
  have h: "0 < maxLogsTotalSize ?c" "distinct (map fname threeLogs)" "aggregate ?c threeLogs < 2 ^ 64"
    by (simp_all add: a) (simp add: threeLogs_def)
  have "cleanupDir ?c (Some threeLogs)
     = Some [\<lparr>fname = ''server_c.log'', regular = True, fsize = 40, mtime = 3\<rparr>,
             \<lparr>fname = ''notes.txt'', regular = True, fsize = 500, mtime = 0\<rparr>]"
    by (simp add: cleanupDir_def threeLogs_match Let_def sumSizes_def removeFile_def)
       (simp add: threeLogs_def)
  with cleanup_establishes_cap [OF h] a show ?thesis
    by simp
qed

text \<open>
  C1, as stated, fails: with \<open>maxLogsTotalSize = 0\<close> the pass returns at once, the
  matching files stay and their aggregate size is above the cap.
\<close>

theorem cleanup_zero_cap_keeps_files:
  "cleanupDir (defaultConfig\<lparr>maxLogsTotalSize := 0\<rparr>) (Some threeLogs) = Some threeLogs
   \<and> aggregate (defaultConfig\<lparr>maxLogsTotalSize := 0\<rparr>) threeLogs = 120
   \<and> \<not> aggregate (defaultConfig\<lparr>maxLogsTotalSize := 0\<rparr>) threeLogs
         \<le> maxLogsTotalSize (defaultConfig\<lparr>maxLogsTotalSize := 0\<rparr>)
   \<and> filter (isLogFile (defaultConfig\<lparr>maxLogsTotalSize := 0\<rparr>)) threeLogs \<noteq> []"
  by (simp add: cleanupDir_def aggregate_def threeLogs_match)

section \<open>Rotation\<close>














section \<open>The emitted line\<close>









































end
